theory Spec2Isabelle
  imports
    Main
    "HOL-Library.Char_ord"
    "HOL-Library.List_Lexorder"
    "HOL-Library.Sublist"
    "HOL-Library.AList"
begin

section \<open>Python strings\<close>

text \<open>
  A Python \<open>str\<close> is modelled as a \<^typ>\<open>string\<close>; a \<^typ>\<open>char\<close> stands for the code
  point of the same number (U+0000 to U+00FF). \<open>str.isspace\<close> holds on that range for the
  code points 9 to 13, 28 to 32, 133 and 160.
\<close>

definition isspace :: "char \<Rightarrow> bool" where
  "isspace c =
     (let n = (of_char c :: nat)
      in (9 \<le> n \<and> n \<le> 13) \<or> (28 \<le> n \<and> n \<le> 32) \<or> n = 133 \<or> n = 160)"

text \<open>\<open>s.strip()\<close>: leading and trailing whitespace removed.\<close>

definition strip :: "string \<Rightarrow> string" where
  "strip s = rev (dropWhile isspace (rev (dropWhile isspace s)))"

text \<open>\<open>sub in s\<close> on strings: \<open>sub\<close> occurs in \<open>s\<close> as a contiguous run.\<close>

fun str_in :: "string \<Rightarrow> string \<Rightarrow> bool" where
  "str_in sub [] = (sub = [])"
| "str_in sub (c # cs) = (prefix sub (c # cs) \<or> str_in sub cs)"

text \<open>\<open>x or ""\<close> for an optional string: \<open>None\<close> and the empty string both give \<open>""\<close>.\<close>

definition or_empty :: "string option \<Rightarrow> string" where
  "or_empty x = (case x of None \<Rightarrow> [] | Some s \<Rightarrow> s)"


section \<open>The command runner\<close>

text \<open>
  \<open>subprocess.run(cmd, shell=True, capture_output=True, text=True, timeout=t)\<close> either
  raises (\<open>TimeoutExpired\<close>, an \<open>OSError\<close> of the spawn, a decoding error), which is
  \<open>Inl\<close> of the exception's \<open>str\<close>, or returns a \<open>CompletedProcess\<close>. What it does is
  the environment's choice and may differ from call to call, so the environment maps the
  commands run so far, the command line and the timeout to the outcome.
\<close>

record CompletedProcess =
  returncode :: int
  stdout :: "string option"
  stderr :: "string option"

record CmdResult =
  ok :: bool
  rc :: int
  out :: string
  err :: string
  cmd :: string

record datetime =
  year :: nat
  month :: nat
  day :: nat
  hour :: nat
  minute :: nat
  second :: nat
  microsecond :: nat

record env =
  subprocess_run :: "(string \<times> int) list \<Rightarrow> string \<Rightarrow> int \<Rightarrow> string + CompletedProcess"
  now_utc :: datetime
  system_brain_dir_exists :: bool

record config =
  SYSTEM_BRAIN_DIR :: string
  PYTHON_BIN :: string
  OLLAMA_BIN :: string
  CMD_TIMEOUT_SEC :: int
  EVIDENCE_KEEP :: int

text \<open>
  The file system below the home directory: every existing path (a list of names, relative
  to \<open>HOME\<close>) with what is there. Symbolic links, special files and permissions are not
  modelled; external commands do not write below \<open>HOME/system-brain-agent\<close>.
\<close>

type_synonym path = "string list"

datatype entry = RegFile string | Directory

type_synonym filesystem = "(path \<times> entry) list"

record world =
  files :: filesystem
  cmd_log :: "(string \<times> int) list"

definition run :: "env \<Rightarrow> string \<Rightarrow> int \<Rightarrow> world \<Rightarrow> CmdResult \<times> world" where
  "run e c t w =
     ((case subprocess_run e (cmd_log w) c t of
         Inr p \<Rightarrow>
           \<lparr>ok = (returncode p = 0), rc = returncode p,
            out = strip (or_empty (stdout p)), err = strip (or_empty (stderr p)), cmd = c\<rparr>
       | Inl msg \<Rightarrow> \<lparr>ok = False, rc = 1, out = [], err = msg, cmd = c\<rparr>),
      w\<lparr>cmd_log := cmd_log w @ [(c, t)]\<rparr>)"

section \<open>The file system\<close>

datatype exn =
  FileNotFoundError
  | FileExistsError
  | NotADirectoryError
  | IsADirectoryError
  | DirectoryNotEmpty

definition is_dir :: "filesystem \<Rightarrow> path \<Rightarrow> bool" where
  "is_dir fs p = (case map_of fs p of Some Directory \<Rightarrow> True | _ \<Rightarrow> False)"

definition is_file :: "filesystem \<Rightarrow> path \<Rightarrow> bool" where
  "is_file fs p = (case map_of fs p of Some (RegFile _) \<Rightarrow> True | _ \<Rightarrow> False)"


text \<open>The entries of directory \<open>d\<close>: the existing paths one name below it.\<close>

definition children :: "filesystem \<Rightarrow> path \<Rightarrow> path list" where
  "children fs d = [q \<leftarrow> map fst fs. q \<noteq> [] \<and> butlast q = d]"

text \<open>
  A well-formed file system names each path once, has the home directory, and has every
  entry inside an existing directory.
\<close>

definition wf_fs :: "filesystem \<Rightarrow> bool" where
  "wf_fs fs \<longleftrightarrow>
     distinct (map fst fs) \<and> is_dir fs [] \<and>
     list_all (\<lambda>q. q = [] \<or> is_dir fs (butlast q)) (map fst fs)"

text \<open>
  What the kernel answers when \<open>d\<close> is used as the directory part of a path: nothing
  when it is a directory, \<open>ENOTDIR\<close> when it or one of its prefixes is a regular file,
  \<open>ENOENT\<close> when it is missing.
\<close>

definition as_dir :: "filesystem \<Rightarrow> path \<Rightarrow> exn option" where
  "as_dir fs d =
     (case map_of fs d of
        Some Directory \<Rightarrow> None
      | Some (RegFile _) \<Rightarrow> Some NotADirectoryError
      | None \<Rightarrow>
          (if list_ex (is_file fs) (prefixes d) then Some NotADirectoryError
           else Some FileNotFoundError))"

text \<open>\<open>os.mkdir(p)\<close>.\<close>

definition os_mkdir :: "filesystem \<Rightarrow> path \<Rightarrow> exn + filesystem" where
  "os_mkdir fs p =
     (if p = [] then Inl FileExistsError
      else case as_dir fs (butlast p) of
        Some e \<Rightarrow> Inl e
      | None \<Rightarrow>
          (case map_of fs p of
             Some _ \<Rightarrow> Inl FileExistsError
           | None \<Rightarrow> Inr (AList.update p Directory fs)))"

text \<open>
  \<open>Path.mkdir(parents=False, exist_ok=True)\<close>: \<open>FileNotFoundError\<close> is raised again,
  any other \<open>OSError\<close> is ignored when the path is a directory.
\<close>

definition mkdir_exist_ok :: "filesystem \<Rightarrow> path \<Rightarrow> exn + filesystem" where
  "mkdir_exist_ok fs p =
     (case os_mkdir fs p of
        Inr fs' \<Rightarrow> Inr fs'
      | Inl FileNotFoundError \<Rightarrow> Inl FileNotFoundError
      | Inl e \<Rightarrow> (if is_dir fs p then Inr fs else Inl e))"

text \<open>
  \<open>Path.mkdir(parents=True, exist_ok=True)\<close>: on \<open>FileNotFoundError\<close> the parent is
  made first, then the path itself without \<open>parents\<close>.
\<close>

function mkdir_parents :: "filesystem \<Rightarrow> path \<Rightarrow> exn + filesystem" where
  "mkdir_parents fs p =
     (case os_mkdir fs p of
        Inr fs' \<Rightarrow> Inr fs'
      | Inl e \<Rightarrow>
          (if e = FileNotFoundError then
             (if p = [] then Inl FileNotFoundError
              else case mkdir_parents fs (butlast p) of
                Inl e' \<Rightarrow> Inl e'
              | Inr fs' \<Rightarrow> mkdir_exist_ok fs' p)
           else if is_dir fs p then Inr fs else Inl e))"
  by pat_completeness auto
termination
  by (relation "measure (\<lambda>(fs, p). length p)") auto

declare mkdir_parents.simps [simp del]

text \<open>\<open>open(p, "a")\<close>, one \<open>write(s)\<close>, close.\<close>

definition append_text :: "filesystem \<Rightarrow> path \<Rightarrow> string \<Rightarrow> exn + filesystem" where
  "append_text fs p s =
     (case map_of fs p of
        Some Directory \<Rightarrow> Inl IsADirectoryError
      | Some (RegFile c) \<Rightarrow> Inr (AList.update p (RegFile (c @ s)) fs)
      | None \<Rightarrow>
          (case as_dir fs (butlast p) of
             Some e \<Rightarrow> Inl e
           | None \<Rightarrow> Inr (AList.update p (RegFile s) fs)))"

text \<open>\<open>Path.write_text(s)\<close>: the file is created or truncated, then written.\<close>

definition write_text :: "filesystem \<Rightarrow> path \<Rightarrow> string \<Rightarrow> exn + filesystem" where
  "write_text fs p s =
     (case map_of fs p of
        Some Directory \<Rightarrow> Inl IsADirectoryError
      | Some (RegFile c) \<Rightarrow> Inr (AList.update p (RegFile s) fs)
      | None \<Rightarrow>
          (case as_dir fs (butlast p) of
             Some e \<Rightarrow> Inl e
           | None \<Rightarrow> Inr (AList.update p (RegFile s) fs)))"

text \<open>\<open>Path.iterdir()\<close>, in the order the file system lists the entries.\<close>

definition iterdir :: "filesystem \<Rightarrow> path \<Rightarrow> exn + path list" where
  "iterdir fs d =
     (case as_dir fs d of
        Some e \<Rightarrow> Inl e
      | None \<Rightarrow> Inr (children fs d))"

text \<open>\<open>p.rglob("*")\<close>: every path below \<open>p\<close>, at any depth.\<close>

definition rglob :: "filesystem \<Rightarrow> path \<Rightarrow> path list" where
  "rglob fs p = [q \<leftarrow> map fst fs. strict_prefix p q]"

text \<open>\<open>Path.unlink(missing_ok=True)\<close>.\<close>

definition unlink_missing_ok :: "filesystem \<Rightarrow> path \<Rightarrow> exn + filesystem" where
  "unlink_missing_ok fs q =
     (case map_of fs q of
        None \<Rightarrow> Inr fs
      | Some (RegFile _) \<Rightarrow> Inr (AList.delete q fs)
      | Some Directory \<Rightarrow> Inl IsADirectoryError)"

text \<open>\<open>Path.rmdir()\<close>: only an empty directory is removed.\<close>

definition rmdir :: "filesystem \<Rightarrow> path \<Rightarrow> exn + filesystem" where
  "rmdir fs p =
     (case map_of fs p of
        None \<Rightarrow> Inl FileNotFoundError
      | Some (RegFile _) \<Rightarrow> Inl NotADirectoryError
      | Some Directory \<Rightarrow>
          (if children fs p \<noteq> [] then Inl DirectoryNotEmpty
           else Inr (AList.delete p fs)))"


section \<open>Paths of the agent\<close>

definition AGENT_DIR :: path where
  "AGENT_DIR = [''system-brain-agent'']"

definition LOG_DIR :: path where
  "LOG_DIR = AGENT_DIR @ [''logs'']"

definition EVENT_LOG :: path where
  "EVENT_LOG = LOG_DIR @ [''events.jsonl'']"

definition EVIDENCE_DIR :: path where
  "EVIDENCE_DIR = LOG_DIR @ [''evidence'']"


section \<open>The retention pruner\<close>

text \<open>
  The inner loop of \<open>prune_evidence\<close>: each listed path that is a regular file is
  unlinked. An exception leaves the loop with the files as they are then.
\<close>

fun unlink_files :: "path list \<Rightarrow> filesystem \<Rightarrow> exn option \<times> filesystem" where
  "unlink_files [] fs = (None, fs)"
| "unlink_files (child # cs) fs =
     (if is_file fs child then
        (case unlink_missing_ok fs child of
           Inl e \<Rightarrow> (Some e, fs)
         | Inr fs' \<Rightarrow> unlink_files cs fs')
      else unlink_files cs fs)"

text \<open>
  The body of the loop over the excess bundles: unlink the files below \<open>p\<close>, remove
  \<open>p\<close>; any exception is swallowed and what was done so far stays.
\<close>

definition prune_bundle :: "path \<Rightarrow> filesystem \<Rightarrow> filesystem" where
  "prune_bundle p fs =
     (case unlink_files (rev (sort (rglob fs p))) fs of
        (Some e, fs1) \<Rightarrow> fs1
      | (None, fs1) \<Rightarrow>
          (case rmdir fs1 p of
             Inl e \<Rightarrow> fs1
           | Inr fs2 \<Rightarrow> fs2))"

text \<open>The bundles as \<open>prune_evidence\<close> sorts them: the directories of the root, by name.\<close>

definition bundles_of :: "filesystem \<Rightarrow> path list \<Rightarrow> path list" where
  "bundles_of fs ps = sort_key last [p \<leftarrow> ps. is_dir fs p]"

definition prune_evidence :: "int \<Rightarrow> filesystem \<Rightarrow> exn + filesystem" where
  "prune_evidence keep fs =
     (if keep \<le> 0 then Inr fs
      else case iterdir fs EVIDENCE_DIR of
        Inl e \<Rightarrow> (if e = FileNotFoundError then Inr fs else Inl e)
      | Inr ps \<Rightarrow>
          (let bundles = bundles_of fs ps;
               excess = int (length bundles) - keep
           in if excess \<le> 0 then Inr fs
              else Inr (fold prune_bundle (take (nat excess) bundles) fs)))"

section \<open>Formatting\<close>

definition digit_char :: "nat \<Rightarrow> char" where
  "digit_char n = char_of (48 + n)"

text \<open>The decimal digits of a natural number, as \<open>str(n)\<close> writes them.\<close>

function str_nat :: "nat \<Rightarrow> string" where
  "str_nat n = (if n < 10 then [digit_char n] else str_nat (n div 10) @ [digit_char (n mod 10)])"
  by pat_completeness auto
termination
  by (relation "measure (\<lambda>n. n)") auto

declare str_nat.simps [simp del]

definition str_int :: "int \<Rightarrow> string" where
  "str_int i = (if i < 0 then CHR ''-'' # str_nat (nat (- i)) else str_nat (nat i))"

definition str_bool :: "bool \<Rightarrow> string" where
  "str_bool b = (if b then ''True'' else ''False'')"

text \<open>\<open>"%0wd" % n\<close> for a natural number.\<close>

definition zero_pad :: "nat \<Rightarrow> nat \<Rightarrow> string" where
  "zero_pad w n = replicate (w - length (str_nat n)) CHR ''0'' @ str_nat n"

text \<open>\<open>sep.join(xs)\<close>.\<close>

fun join :: "string \<Rightarrow> string list \<Rightarrow> string" where
  "join sep [] = []"
| "join sep [x] = x"
| "join sep (x # y # ys) = x @ sep @ join sep (y # ys)"

text \<open>
  \<open>s.replace(old, new)\<close> for a non-empty \<open>old\<close>: the occurrences of \<open>old\<close> are
  replaced from the left, without overlap.
\<close>

function replace_str :: "string \<Rightarrow> string \<Rightarrow> string \<Rightarrow> string" where
  "replace_str old new [] = []"
| "replace_str old new (c # cs) =
     (if old \<noteq> [] \<and> prefix old (c # cs)
      then new @ replace_str old new (drop (length old) (c # cs))
      else c # replace_str old new cs)"
  by pat_completeness auto
termination
  by (relation "measure (\<lambda>(old, new, s). length s)") auto


section \<open>Timestamps and bundle names\<close>

text \<open>
  \<open>datetime.isoformat()\<close> of an aware UTC time: the fraction is written only when the
  microsecond is not zero.
\<close>

definition isoformat :: "datetime \<Rightarrow> string" where
  "isoformat d =
     zero_pad 4 (year d) @ ''-'' @ zero_pad 2 (month d) @ ''-'' @ zero_pad 2 (day d) @ ''T'' @
     zero_pad 2 (hour d) @ '':'' @ zero_pad 2 (minute d) @ '':'' @ zero_pad 2 (second d) @
     (if microsecond d \<noteq> 0 then ''.'' @ zero_pad 6 (microsecond d) else []) @ ''+00:00''"

definition utc_ts :: "env \<Rightarrow> string" where
  "utc_ts e = replace_str ''+00:00'' ''Z'' (isoformat (now_utc e))"

text \<open>
  \<open>EVIDENCE_DIR / name\<close> is one name below the evidence root: the timestamps that
  \<open>utc_ts\<close> writes hold no \<open>/\<close>.
\<close>

definition evidence_bundle_dir :: "string \<Rightarrow> path" where
  "evidence_bundle_dir ts = EVIDENCE_DIR @ [replace_str '':'' ''-'' ts]"


section \<open>JSON documents\<close>

datatype json =
  JBool bool
  | JInt int
  | JStr string
  | JList "json list"
  | JDict "(string \<times> json) list"

definition hex_digit :: "nat \<Rightarrow> char" where
  "hex_digit n = (if n < 10 then char_of (48 + n) else char_of (87 + n))"

text \<open>
  The escapes of \<open>json.dumps(..., ensure_ascii=False)\<close>: the quote, the backslash and
  the control characters below U+0020.
\<close>

definition escape_char :: "char \<Rightarrow> string" where
  "escape_char c =
     (let n = (of_char c :: nat) in
      if n = 34 then [CHR 0x5C, CHR 0x22]
      else if n = 92 then [CHR 0x5C, CHR 0x5C]
      else if n = 10 then [CHR 0x5C, CHR ''n'']
      else if n = 13 then [CHR 0x5C, CHR ''r'']
      else if n = 9 then [CHR 0x5C, CHR ''t'']
      else if n = 8 then [CHR 0x5C, CHR ''b'']
      else if n = 12 then [CHR 0x5C, CHR ''f'']
      else if n < 32 then [CHR 0x5C, CHR ''u'', CHR ''0'', CHR ''0'', hex_digit (n div 16), hex_digit (n mod 16)]
      else [c])"

definition encode_basestring :: "string \<Rightarrow> string" where
  "encode_basestring s = CHR 0x22 # concat (map escape_char s) @ [CHR 0x22]"

text \<open>\<open>json.dumps(v, ensure_ascii=False)\<close>: one line, separators \<open>", "\<close> and \<open>": "\<close>.\<close>

fun dumps :: "json \<Rightarrow> string" where
  "dumps (JBool b) = (if b then ''true'' else ''false'')"
| "dumps (JInt i) = str_int i"
| "dumps (JStr s) = encode_basestring s"
| "dumps (JList xs) =
     (if xs = [] then ''[]'' else ''['' @ join '', '' (map dumps xs) @ '']'')"
| "dumps (JDict kvs) =
     (if kvs = [] then ''{}''
      else ''{'' @ join '', '' (map (\<lambda>kv. encode_basestring (fst kv) @ '': '' @ dumps (snd kv)) kvs) @ ''}'')"

definition newline_indent :: "nat \<Rightarrow> string" where
  "newline_indent level = CHR 0x0A # replicate (2 * level) CHR '' ''"

text \<open>\<open>json.dumps(v, indent=2, ensure_ascii=False)\<close>, at nesting depth \<open>level\<close>.\<close>

fun dumps_indent :: "nat \<Rightarrow> json \<Rightarrow> string" where
  "dumps_indent level (JBool b) = (if b then ''true'' else ''false'')"
| "dumps_indent level (JInt i) = str_int i"
| "dumps_indent level (JStr s) = encode_basestring s"
| "dumps_indent level (JList xs) =
     (if xs = [] then ''[]''
      else ''['' @ newline_indent (Suc level) @
           join ('','' @ newline_indent (Suc level)) (map (dumps_indent (Suc level)) xs) @
           newline_indent level @ '']'')"
| "dumps_indent level (JDict kvs) =
     (if kvs = [] then ''{}''
      else ''{'' @ newline_indent (Suc level) @
           join ('','' @ newline_indent (Suc level))
             (map (\<lambda>kv. encode_basestring (fst kv) @ '': '' @ dumps_indent (Suc level) (snd kv)) kvs) @
           newline_indent level @ ''}'')"


section \<open>The event recorder\<close>

definition ensure_dirs :: "filesystem \<Rightarrow> exn + filesystem" where
  "ensure_dirs fs =
     (case mkdir_parents fs LOG_DIR of
        Inl x \<Rightarrow> Inl x
      | Inr fs1 \<Rightarrow> mkdir_parents fs1 EVIDENCE_DIR)"

definition write_event :: "json \<Rightarrow> filesystem \<Rightarrow> exn + filesystem" where
  "write_event event fs = append_text fs EVENT_LOG (dumps event @ [CHR 0x0A])"

definition write_file :: "filesystem \<Rightarrow> path \<Rightarrow> string \<Rightarrow> exn + filesystem" where
  "write_file fs p content = write_text fs p content"


section \<open>The probes\<close>

text \<open>\<open>r.__dict__\<close> of a \<open>CmdResult\<close>, in the order of its fields.\<close>

definition dict_of :: "CmdResult \<Rightarrow> json" where
  "dict_of r =
     JDict [(''ok'', JBool (ok r)), (''rc'', JInt (rc r)), (''out'', JStr (out r)),
            (''err'', JStr (err r)), (''cmd'', JStr (cmd r))]"

definition check_ollama_active :: "env \<Rightarrow> world \<Rightarrow> (bool \<times> json) \<times> world" where
  "check_ollama_active e w =
     (let (r, w') = run e ''systemctl is-active ollama.service'' 10 w
      in ((ok r \<and> out r = ''active'', JDict [(''systemctl_is_active'', dict_of r)]), w'))"

definition port_cmd :: string where
  "port_cmd =
     ''ss -ltnp | grep -E '' @ [CHR 0x27] @ ''(:|'' @ [CHR 0x5C] @ ''.)11434'' @ [CHR 0x5C] @
     ''b'' @ [CHR 0x27] @ '' || true''"

definition check_port :: "env \<Rightarrow> world \<Rightarrow> (bool \<times> json) \<times> world" where
  "check_port e w =
     (let (r, w') = run e port_cmd 10 w
      in ((str_in ''11434'' (out r), JDict [(''ss_grep_11434'', dict_of r)]), w'))"

definition check_ollama_list :: "config \<Rightarrow> env \<Rightarrow> world \<Rightarrow> (bool \<times> json) \<times> world" where
  "check_ollama_list cfg e w =
     (let (r, w') = run e (OLLAMA_BIN cfg @ '' list'') 20 w
      in ((ok r \<and> length (out r) > 0,
           JDict [(''ollama_list'', dict_of r), (''ollama_bin'', JStr (OLLAMA_BIN cfg))]), w'))"

definition compile_cmd :: "config \<Rightarrow> string" where
  "compile_cmd cfg = PYTHON_BIN cfg @ '' -m py_compile '' @ SYSTEM_BRAIN_DIR cfg @ ''/*.py''"

definition check_compile :: "config \<Rightarrow> env \<Rightarrow> world \<Rightarrow> (bool \<times> json) \<times> world" where
  "check_compile cfg e w =
     (if \<not> system_brain_dir_exists e then
        ((False, JDict [(''system_brain_dir'', JStr (SYSTEM_BRAIN_DIR cfg)),
                        (''error'', JStr ''SYSTEM_BRAIN_DIR missing'')]), w)
      else
        (let (r, w') = run e (compile_cmd cfg) 30 w
         in ((ok r, JDict [(''system_brain_dir'', JStr (SYSTEM_BRAIN_DIR cfg)),
                           (''py_compile'', dict_of r)]), w')))"


section \<open>The evidence bundler\<close>

definition cmds :: "config \<Rightarrow> (string \<times> string) list" where
  "cmds cfg =
     [(''systemctl_ollama_status.txt'', ''systemctl status ollama.service --no-pager -l || true''),
      (''journal_ollama_tail.txt'', ''journalctl -u ollama.service -n 200 --no-pager || true''),
      (''ports_ss_full.txt'', ''ss -ltnp || true''),
      (''ip_addr.txt'', ''ip a || true''),
      (''nmcli_device_status.txt'', ''nmcli device status || true''),
      (''ollama_list.txt'', OLLAMA_BIN cfg @ '' list || true''),
      (''compile_check.txt'', compile_cmd cfg @ '' || true'')]"

definition artifact_text :: "string \<Rightarrow> CmdResult \<Rightarrow> string" where
  "artifact_text c r =
     ''CMD: '' @ c @ [CHR 0x0A] @ ''OK: '' @ str_bool (ok r) @ [CHR 0x0A] @
     ''RC: '' @ str_int (rc r) @ [CHR 0x0A, CHR 0x0A] @
     ''STDOUT:'' @ [CHR 0x0A] @ out r @ [CHR 0x0A, CHR 0x0A] @
     ''STDERR:'' @ [CHR 0x0A] @ err r @ [CHR 0x0A]"

text \<open>The loop of \<open>snapshot\<close> over the table of commands.\<close>

fun snapshot_loop :: "env \<Rightarrow> path \<Rightarrow> (string \<times> string) list \<Rightarrow> world \<Rightarrow> exn + world" where
  "snapshot_loop e bundle [] w = Inr w"
| "snapshot_loop e bundle ((fname, c) # rest) w =
     (let (r, w1) = run e c 30 w
      in case write_file (files w1) (bundle @ [fname]) (artifact_text c r) of
           Inl x \<Rightarrow> Inl x
         | Inr fs' \<Rightarrow> snapshot_loop e bundle rest (w1\<lparr>files := fs'\<rparr>))"

definition snapshot :: "config \<Rightarrow> env \<Rightarrow> string \<Rightarrow> json \<Rightarrow> world \<Rightarrow> exn + world" where
  "snapshot cfg e ts details w =
     (let bundle = evidence_bundle_dir ts
      in case mkdir_parents (files w) bundle of
           Inl x \<Rightarrow> Inl x
         | Inr fs1 \<Rightarrow>
             (case write_file fs1 (bundle @ [''details.json'']) (dumps_indent 0 details) of
                Inl x \<Rightarrow> Inl x
              | Inr fs2 \<Rightarrow> snapshot_loop e bundle (cmds cfg) (w\<lparr>files := fs2\<rparr>)))"


section \<open>The orchestrator\<close>

definition status_of :: "bool \<Rightarrow> bool \<Rightarrow> bool \<Rightarrow> bool \<Rightarrow> (string \<times> bool) list" where
  "status_of ok1 ok2 ok3 ok4 =
     [(''ollama_active'', ok1), (''port_11434_listening'', ok2),
      (''ollama_list_ok'', ok3), (''system_brain_compile_ok'', ok4)]"

definition event_of :: "string \<Rightarrow> bool \<Rightarrow> (string \<times> bool) list \<Rightarrow> json" where
  "event_of ts overall status =
     JDict [(''timestamp'', JStr ts),
            (''overall_ok'', JBool overall),
            (''status'', JDict (map (\<lambda>kv. (fst kv, JBool (snd kv))) status))]"

definition main :: "config \<Rightarrow> env \<Rightarrow> world \<Rightarrow> exn + world" where
  "main cfg e w =
     (case ensure_dirs (files w) of
        Inl x \<Rightarrow> Inl x
      | Inr fs1 \<Rightarrow>
          (let ts = utc_ts e;
               ((ok1, d1), w1) = check_ollama_active e (w\<lparr>files := fs1\<rparr>);
               ((ok2, d2), w2) = check_port e w1;
               ((ok3, d3), w3) = check_ollama_list cfg e w2;
               ((ok4, d4), w4) = check_compile cfg e w3;
               status = status_of ok1 ok2 ok3 ok4;
               overall = list_all (\<lambda>b. b) (map snd status);
               event = event_of ts overall status
           in case write_event event (files w4) of
                Inl x \<Rightarrow> Inl x
              | Inr fs2 \<Rightarrow>
                  (if \<not> overall then
                     (case snapshot cfg e ts
                             (JDict [(''event'', event), (''details'', JList [d1, d2, d3, d4])])
                             (w4\<lparr>files := fs2\<rparr>) of
                        Inl x \<Rightarrow> Inl x
                      | Inr w5 \<Rightarrow>
                          (case prune_evidence (EVIDENCE_KEEP cfg) (files w5) of
                             Inl x \<Rightarrow> Inl x
                           | Inr fs3 \<Rightarrow> Inr (w5\<lparr>files := fs3\<rparr>)))
                   else Inr (w4\<lparr>files := fs2\<rparr>))))"

section \<open>The shell that runs a command line\<close>

text \<open>
  With \<open>shell=True\<close> the command line is a program for \<open>/bin/sh -c\<close>. The fragment of
  the shell language in which the port probe's command is written: words, single quotes,
  pipelines (\<open>|\<close>) and OR lists (\<open>||\<close>). A command line outside the fragment does not
  parse. The programs that the words name are the environment's: given the argument
  vector and the standard input, a program ends with a status, an output and an error
  text, or is not found; the shell then reports status 127. \<open>true\<close> is the shell's own
  and ends with status 0. A pipeline has the status and the output of its last command;
  \<open>A || B\<close> runs \<open>B\<close> when \<open>A\<close> ends with a status other than 0 and then has the
  status of \<open>B\<close>.
\<close>

datatype token = Word string | Bar | BarBar

definition word_char :: "char \<Rightarrow> bool" where
  "word_char c =
     (let n = (of_char c :: nat)
      in (48 \<le> n \<and> n \<le> 57) \<or> (65 \<le> n \<and> n \<le> 90) \<or> (97 \<le> n \<and> n \<le> 122) \<or>
         c \<in> set ''-_./:'')"

definition flush :: "string option \<Rightarrow> token list" where
  "flush cur = (case cur of None \<Rightarrow> [] | Some w \<Rightarrow> [Word w])"

definition grow :: "string option \<Rightarrow> string \<Rightarrow> string option" where
  "grow cur s = Some ((case cur of None \<Rightarrow> [] | Some w \<Rightarrow> w) @ s)"

fun sh_tokens :: "bool \<Rightarrow> string option \<Rightarrow> string \<Rightarrow> token list option" where
  "sh_tokens q cur [] = (if q then None else Some (flush cur))"
| "sh_tokens q cur [c] =
     (if q then (if c = CHR 0x27 then Some (flush cur) else None)
      else if c = CHR '' '' then Some (flush cur)
      else if word_char c then Some (flush (grow cur [c]))
      else None)"
| "sh_tokens q cur (c # d # cs) =
     (if q then
        (if c = CHR 0x27 then sh_tokens False cur (d # cs)
         else sh_tokens True (grow cur [c]) (d # cs))
      else if c = CHR 0x27 then sh_tokens True (grow cur []) (d # cs)
      else if c = CHR '' '' then map_option (\<lambda>ts. flush cur @ ts) (sh_tokens False None (d # cs))
      else if c = CHR ''|'' \<and> d = CHR ''|'' then
        map_option (\<lambda>ts. flush cur @ BarBar # ts) (sh_tokens False None cs)
      else if c = CHR ''|'' then
        map_option (\<lambda>ts. flush cur @ Bar # ts) (sh_tokens False None (d # cs))
      else if word_char c then sh_tokens False (grow cur [c]) (d # cs)
      else None)"

fun split_at :: "token \<Rightarrow> token list \<Rightarrow> token list list" where
  "split_at sep [] = [[]]"
| "split_at sep (t # ts) =
     (if t = sep then [] # split_at sep ts
      else (case split_at sep ts of [] \<Rightarrow> [[t]] | g # gs \<Rightarrow> (t # g) # gs))"

definition argv_of :: "token list \<Rightarrow> string list option" where
  "argv_of ts =
     (if ts \<noteq> [] \<and> list_all (\<lambda>t. case t of Word _ \<Rightarrow> True | _ \<Rightarrow> False) ts
      then Some (map (\<lambda>t. case t of Word w \<Rightarrow> w | _ \<Rightarrow> []) ts) else None)"

definition all_some :: "'a option list \<Rightarrow> 'a list option" where
  "all_some xs = (if list_all (\<lambda>x. x \<noteq> None) xs then Some (map the xs) else None)"

definition sh_parse :: "string \<Rightarrow> string list list list option" where
  "sh_parse s =
     (case sh_tokens False None s of
        None \<Rightarrow> None
      | Some ts \<Rightarrow>
          all_some (map (\<lambda>p. all_some (map argv_of (split_at Bar p))) (split_at BarBar ts)))"


record proc_result =
  status :: int
  sh_out :: string
  sh_err :: string

type_synonym programs = "string list \<Rightarrow> string \<Rightarrow> proc_result option"

definition run_simple :: "programs \<Rightarrow> string list \<Rightarrow> string \<Rightarrow> proc_result" where
  "run_simple progs argv input =
     (if hd argv = ''true'' then \<lparr>status = 0, sh_out = [], sh_err = []\<rparr>
      else case progs argv input of
        Some r \<Rightarrow> r
      | None \<Rightarrow>
          \<lparr>status = 127, sh_out = [],
           sh_err = ''/bin/sh: 1: '' @ hd argv @ '': not found'' @ [CHR 0x0A]\<rparr>)"

fun run_pipeline :: "programs \<Rightarrow> string list list \<Rightarrow> string \<Rightarrow> proc_result" where
  "run_pipeline progs [] input = \<lparr>status = 0, sh_out = [], sh_err = []\<rparr>"
| "run_pipeline progs [c] input = run_simple progs c input"
| "run_pipeline progs (c # c' # cs) input =
     (let r = run_simple progs c input;
          r' = run_pipeline progs (c' # cs) (sh_out r)
      in \<lparr>status = status r', sh_out = sh_out r', sh_err = sh_err r @ sh_err r'\<rparr>)"

fun run_or_list :: "programs \<Rightarrow> string list list list \<Rightarrow> proc_result" where
  "run_or_list progs [] = \<lparr>status = 0, sh_out = [], sh_err = []\<rparr>"
| "run_or_list progs [p] = run_pipeline progs p []"
| "run_or_list progs (p # p' # ps) =
     (let r = run_pipeline progs p []
      in if status r = 0 then r
         else (let r' = run_or_list progs (p' # ps)
               in \<lparr>status = status r', sh_out = sh_out r @ sh_out r',
                   sh_err = sh_err r @ sh_err r'\<rparr>))"

text \<open>What \<open>subprocess.run(c, shell=True, capture_output=True, text=True)\<close> returns when the
  shell runs \<open>c\<close> to its end.\<close>

definition sh_c :: "programs \<Rightarrow> string \<Rightarrow> CompletedProcess option" where
  "sh_c progs c =
     (case sh_parse c of
        None \<Rightarrow> None
      | Some l \<Rightarrow>
          (let r = run_or_list progs l
           in Some \<lparr>returncode = status r, stdout = Some (sh_out r), stderr = Some (sh_err r)\<rparr>))"

text \<open>The filtered listing of the port probe: what \<open>grep\<close> writes when it reads the
  output of \<open>ss -ltnp\<close>.\<close>

definition grep_pattern :: string where
  "grep_pattern = ''(:|'' @ [CHR 0x5C] @ ''.)11434'' @ [CHR 0x5C] @ ''b''"

definition port_listing :: "programs \<Rightarrow> string" where
  "port_listing progs =
     sh_out (run_simple progs [''grep'', ''-E'', grep_pattern]
               (sh_out (run_simple progs [''ss'', ''-ltnp''] [])))"


section \<open>Notions for stating retention\<close>



definition bundles :: "filesystem \<Rightarrow> path list" where
  "bundles fs = bundles_of fs (children fs EVIDENCE_DIR)"





section \<open>Reading files back\<close>

text \<open>What \<open>p\<close> holds when it is a regular file, and \<open>""\<close> otherwise.\<close>

definition read_text :: "filesystem \<Rightarrow> path \<Rightarrow> string" where
  "read_text fs p = (case map_of fs p of Some (RegFile c) \<Rightarrow> c | _ \<Rightarrow> [])"


section \<open>Sample environments\<close>

text \<open>Every command times out.\<close>

definition env_timeout :: env where
  "env_timeout =
     \<lparr>subprocess_run = (\<lambda>h c t. Inl ''Command timed out''),
      now_utc = \<lparr>year = 2026, month = 1, day = 2, hour = 3, minute = 4, second = 5,
                 microsecond = 6\<rparr>,
      system_brain_dir_exists = True\<rparr>"

text \<open>The service is up: all four probes pass.\<close>

definition env_up :: env where
  "env_up =
     \<lparr>subprocess_run =
        (\<lambda>h c t.
           if c = ''systemctl is-active ollama.service''
           then Inr \<lparr>returncode = 0, stdout = Some ('' active'' @ [CHR 0x0A]), stderr = Some []\<rparr>
           else if c = port_cmd
           then Inr \<lparr>returncode = 0, stdout = Some ''LISTEN 0 4096 127.0.0.1:11434 0.0.0.0:*'',
                     stderr = Some []\<rparr>
           else Inr \<lparr>returncode = 0, stdout = Some ''NAME ID SIZE'', stderr = None\<rparr>),
      now_utc = \<lparr>year = 2026, month = 1, day = 2, hour = 3, minute = 4, second = 5,
                 microsecond = 6\<rparr>,
      system_brain_dir_exists = True\<rparr>"

text \<open>
  The service is down: the daemon is inactive, nothing listens on the port, the CLI lists
  nothing, the companion tree compiles.
\<close>

definition env_down :: env where
  "env_down =
     \<lparr>subprocess_run =
        (\<lambda>h c t.
           if c = ''systemctl is-active ollama.service''
           then Inr \<lparr>returncode = 3, stdout = Some (''inactive'' @ [CHR 0x0A]), stderr = Some []\<rparr>
           else Inr \<lparr>returncode = 0, stdout = Some [], stderr = Some []\<rparr>),
      now_utc = \<lparr>year = 2026, month = 1, day = 2, hour = 3, minute = 4, second = 5,
                 microsecond = 6\<rparr>,
      system_brain_dir_exists = True\<rparr>"

text \<open>The port is listed although the pipeline reports a non-zero status.\<close>

definition env_port_rc2 :: env where
  "env_port_rc2 =
     \<lparr>subprocess_run =
        (\<lambda>h c t. Inr \<lparr>returncode = 2, stdout = Some ''LISTEN 0 4096 *:11434 *:*'',
                        stderr = Some []\<rparr>),
      now_utc = \<lparr>year = 2026, month = 1, day = 2, hour = 3, minute = 4, second = 5,
                 microsecond = 6\<rparr>,
      system_brain_dir_exists = True\<rparr>"

definition cfg_default :: config where
  "cfg_default =
     \<lparr>SYSTEM_BRAIN_DIR = ''/home/u/system-brain'', PYTHON_BIN = ''/usr/bin/python3'',
      OLLAMA_BIN = ''/usr/local/bin/ollama'', CMD_TIMEOUT_SEC = 30, EVIDENCE_KEEP = 50\<rparr>"

text \<open>A home directory with nothing in it, and no command run yet.\<close>

definition w_fresh :: world where
  "w_fresh = \<lparr>files = [([], Directory)], cmd_log = []\<rparr>"


text \<open>
  Environments that run every command through the shell, with no program installed, with
  nothing listening on the port, and with the service listening.
\<close>

definition env_shell :: "programs \<Rightarrow> env" where
  "env_shell progs =
     \<lparr>subprocess_run =
        (\<lambda>h c t. case sh_c progs c of Some p \<Rightarrow> Inr p | None \<Rightarrow> Inl ''unsupported''),
      now_utc = \<lparr>year = 2026, month = 1, day = 2, hour = 3, minute = 4, second = 5,
                 microsecond = 6\<rparr>,
      system_brain_dir_exists = True\<rparr>"

definition progs_none :: programs where
  "progs_none = (\<lambda>argv input. None)"

definition progs_idle :: programs where
  "progs_idle =
     (\<lambda>argv input.
        if hd argv = ''ss''
        then Some \<lparr>status = 0, sh_out = ''LISTEN 0 128 0.0.0.0:22 0.0.0.0:*'' @ [CHR 0x0A], sh_err = []\<rparr>
        else if hd argv = ''grep'' then Some \<lparr>status = 1, sh_out = [], sh_err = []\<rparr>
        else None)"

definition progs_listening :: programs where
  "progs_listening =
     (\<lambda>argv input.
        if hd argv = ''ss''
        then Some \<lparr>status = 0,
                   sh_out = ''LISTEN 0 128 0.0.0.0:22 0.0.0.0:*'' @ [CHR 0x0A] @
                            ''LISTEN 0 4096 127.0.0.1:11434 0.0.0.0:*'' @ [CHR 0x0A],
                   sh_err = []\<rparr>
        else if hd argv = ''grep''
        then Some \<lparr>status = 0, sh_out = ''LISTEN 0 4096 127.0.0.1:11434 0.0.0.0:*'' @ [CHR 0x0A],
                   sh_err = []\<rparr>
        else None)"

text \<open>
  Evidence stores with three bundles: one whose bundles hold regular files only, and one
  whose oldest bundle holds a directory.
\<close>

definition b01 :: path where "b01 = EVIDENCE_DIR @ [''2026-01-01T08-00-00.000001Z'']"
definition b02 :: path where "b02 = EVIDENCE_DIR @ [''2026-01-02T08-00-00.000001Z'']"
definition b03 :: path where "b03 = EVIDENCE_DIR @ [''2026-01-03T08-00-00.000001Z'']"

definition fs_base :: filesystem where
  "fs_base =
     [([], Directory), (AGENT_DIR, Directory), (LOG_DIR, Directory),
      (EVENT_LOG, RegFile []), (EVIDENCE_DIR, Directory)]"

definition fs_flat :: filesystem where
  "fs_flat = fs_base @
     [(b03, Directory), (b03 @ [''details.json''], RegFile ''{}''),
      (b01, Directory), (b01 @ [''details.json''], RegFile ''{}''),
      (b01 @ [''ip_addr.txt''], RegFile ''CMD: ip a || true''),
      (b02, Directory), (b02 @ [''details.json''], RegFile ''{}'')]"

definition fs_flat_pruned :: filesystem where
  "fs_flat_pruned = fs_base @
     [(b03, Directory), (b03 @ [''details.json''], RegFile ''{}''),
      (b02, Directory), (b02 @ [''details.json''], RegFile ''{}'')]"





definition sample_event :: json where
  "sample_event = event_of ''2026-01-02T03:04:05.000006Z'' False (status_of False False False True)"

definition sample_line :: string where
  "sample_line =
     ''{'' @ [CHR 0x22] @ ''timestamp'' @ [CHR 0x22] @ '': '' @ [CHR 0x22] @
     ''2026-01-02T03:04:05.000006Z'' @ [CHR 0x22] @ '', '' @ [CHR 0x22] @ ''overall_ok'' @
     [CHR 0x22] @ '': false, '' @ [CHR 0x22] @ ''status'' @ [CHR 0x22] @ '': {'' @ [CHR 0x22] @
     ''ollama_active'' @ [CHR 0x22] @ '': false, '' @ [CHR 0x22] @ ''port_11434_listening'' @
     [CHR 0x22] @ '': false, '' @ [CHR 0x22] @ ''ollama_list_ok'' @ [CHR 0x22] @ '': false, '' @
     [CHR 0x22] @ ''system_brain_compile_ok'' @ [CHR 0x22] @ '': true}}'' @ [CHR 0x0A]"


section \<open>Properties of strings\<close>

lemma strip_decomp:
  "\<exists>pre suf. s = pre @ strip s @ suf \<and> list_all isspace pre \<and> list_all isspace suf"
proof -
  define m where "m = dropWhile isspace s"
  have s: "s = takeWhile isspace s @ m"
    by (simp add: m_def)
  have "rev (takeWhile isspace (rev m) @ dropWhile isspace (rev m)) = rev (rev m)"
    by (simp only: takeWhile_dropWhile_id)
  then have m: "m = strip s @ rev (takeWhile isspace (rev m))"
    by (simp add: strip_def m_def del: takeWhile_dropWhile_id)
  have a: "list_all isspace (takeWhile isspace s)"
    by (simp add: list_all_iff) (meson set_takeWhileD)
  have b: "list_all isspace (rev (takeWhile isspace (rev m)))"
    by (simp add: list_all_iff) (meson set_takeWhileD)
  from s m a b show ?thesis
    by (metis append.assoc)
qed

lemma strip_ends:
  assumes "strip s \<noteq> []"
  shows "\<not> isspace (hd (strip s)) \<and> \<not> isspace (last (strip s))"
proof -
  define m where "m = dropWhile isspace s"
  define k where "k = dropWhile isspace (rev m)"
  have st: "strip s = rev k"
    by (simp add: strip_def m_def k_def)
  with assms have k: "k \<noteq> []" by simp
  then have 1: "\<not> isspace (hd k)"
    unfolding k_def by (rule hd_dropWhile)
  have "rev m \<noteq> []" using k by (auto simp: k_def)
  then have mne: "m \<noteq> []" by simp
  then have 2: "\<not> isspace (hd m)"
    unfolding m_def by (rule hd_dropWhile)
  have "last k = last (rev m)"
    using k unfolding k_def by (metis last_appendR takeWhile_dropWhile_id)
  then have "last k = hd m" using mne by (simp add: last_rev)
  with 1 2 k show ?thesis
    by (simp add: st hd_rev last_rev)
qed

lemma str_in_sublist: "str_in sub s = sublist sub s"
  by (induction s) (auto simp: sublist_Cons_right)

lemma sublist_drop_ws_left:
  assumes "list_all isspace pre" "sub \<noteq> []" "\<not> list_ex isspace sub"
  shows "sublist sub (pre @ s) = sublist sub s"
  using assms
proof (induction pre)
  case Nil
  then show ?case by simp
next
  case (Cons x pre)
  have "\<not> prefix sub (x # pre @ s)"
  proof
    assume "prefix sub (x # pre @ s)"
    with Cons.prems(2) have "hd sub = x"
      by (cases sub) auto
    with Cons.prems show False
      by (cases sub) (auto simp: list_ex_iff)
  qed
  with Cons show ?case
    by (simp add: sublist_Cons_right)
qed

lemma sublist_drop_ws:
  assumes "list_all isspace pre" "list_all isspace suf" "sub \<noteq> []" "\<not> list_ex isspace sub"
  shows "sublist sub (pre @ s @ suf) = sublist sub s"
proof -
  have "sublist sub (pre @ s @ suf) = sublist sub (s @ suf)"
    using assms by (simp add: sublist_drop_ws_left)
  also have "\<dots> = sublist (rev sub) (rev suf @ rev s)"
    by (metis rev_append sublist_rev)
  also have "\<dots> = sublist (rev sub) (rev s)"
    using assms by (intro sublist_drop_ws_left) (auto simp: list_all_iff list_ex_iff)
  also have "\<dots> = sublist sub s"
    by (simp add: sublist_rev)
  finally show ?thesis .
qed

lemma str_in_strip:
  assumes "sub \<noteq> []" "\<not> list_ex isspace sub"
  shows "str_in sub (strip s) = str_in sub s"
proof -
  obtain pre suf where "s = pre @ strip s @ suf" "list_all isspace pre" "list_all isspace suf"
    using strip_decomp by blast
  then show ?thesis
    using assms sublist_drop_ws[of pre suf sub "strip s"] by (simp add: str_in_sublist)
qed

lemma port_digits_no_space: "\<not> list_ex isspace ''11434''"
  by (simp add: isspace_def)


section \<open>The command runner\<close>

lemma run_raised:
  "subprocess_run e (cmd_log w) c t = Inl msg \<Longrightarrow>
   fst (run e c t w) = \<lparr>ok = False, rc = 1, out = [], err = msg, cmd = c\<rparr>"
  by (simp add: run_def)

lemma run_completed:
  "subprocess_run e (cmd_log w) c t = Inr p \<Longrightarrow>
   fst (run e c t w) =
     \<lparr>ok = (returncode p = 0), rc = returncode p, out = strip (or_empty (stdout p)),
      err = strip (or_empty (stderr p)), cmd = c\<rparr>"
  by (simp add: run_def)

lemma run_world: "snd (run e c t w) = w\<lparr>cmd_log := cmd_log w @ [(c, t)]\<rparr>"
  by (simp add: run_def)

lemma or_empty_case: "or_empty x = (case x of None \<Rightarrow> [] | Some s \<Rightarrow> s)"
  by (simp add: or_empty_def)

text \<open>
  C3, as the code has it. \<open>run\<close> always hands back a \<open>CmdResult\<close> with its five
  fields; no exception of class \<open>Exception\<close> leaves it. When \<open>subprocess.run\<close> raises
  (the timeout, a shell that cannot be started, output that cannot be decoded) the result
  is \<open>ok = False\<close>, \<open>rc = 1\<close>, \<open>out = ""\<close> and \<open>err\<close> the text of the exception.
  When \<open>subprocess.run\<close> returns, whatever the exit code, \<open>rc\<close> is that exit code,
  \<open>ok\<close> holds exactly when it is 0, and \<open>out\<close> and \<open>err\<close> are the captured streams
  (\<open>""\<close> for \<open>None\<close>) stripped: what is left of the stream between a whitespace-only
  head and a whitespace-only tail, neither starting nor ending with whitespace. The call
  is added to the log of commands.
\<close>

theorem run_outcome_by_branch:
  "(\<forall>msg. subprocess_run e (cmd_log w) c t = Inl msg \<longrightarrow>
      fst (run e c t w) = \<lparr>ok = False, rc = 1, out = [], err = msg, cmd = c\<rparr>) \<and>
   (\<forall>p. subprocess_run e (cmd_log w) c t = Inr p \<longrightarrow>
      ok (fst (run e c t w)) = (returncode p = 0) \<and>
      rc (fst (run e c t w)) = returncode p \<and>
      cmd (fst (run e c t w)) = c \<and>
      out (fst (run e c t w)) = strip (case stdout p of None \<Rightarrow> [] | Some s \<Rightarrow> s) \<and>
      err (fst (run e c t w)) = strip (case stderr p of None \<Rightarrow> [] | Some s \<Rightarrow> s) \<and>
      (\<exists>pre suf. (case stdout p of None \<Rightarrow> [] | Some s \<Rightarrow> s) = pre @ out (fst (run e c t w)) @ suf \<and>
         list_all isspace pre \<and> list_all isspace suf) \<and>
      (out (fst (run e c t w)) = [] \<or>
         \<not> isspace (hd (out (fst (run e c t w)))) \<and> \<not> isspace (last (out (fst (run e c t w))))) \<and>
      (\<exists>pre suf. (case stderr p of None \<Rightarrow> [] | Some s \<Rightarrow> s) = pre @ err (fst (run e c t w)) @ suf \<and>
         list_all isspace pre \<and> list_all isspace suf) \<and>
      (err (fst (run e c t w)) = [] \<or>
         \<not> isspace (hd (err (fst (run e c t w)))) \<and> \<not> isspace (last (err (fst (run e c t w)))))) \<and>
   snd (run e c t w) = w\<lparr>cmd_log := cmd_log w @ [(c, t)]\<rparr>"
proof (intro conjI allI impI)
  fix msg assume "subprocess_run e (cmd_log w) c t = Inl msg"
  then show "fst (run e c t w) = \<lparr>ok = False, rc = 1, out = [], err = msg, cmd = c\<rparr>"
    by (rule run_raised)
next
  show "snd (run e c t w) = w\<lparr>cmd_log := cmd_log w @ [(c, t)]\<rparr>"
    by (rule run_world)
next
  fix p assume p: "subprocess_run e (cmd_log w) c t = Inr p"
  define so where "so = (case stdout p of None \<Rightarrow> [] | Some s \<Rightarrow> s)"
  define se where "se = (case stderr p of None \<Rightarrow> [] | Some s \<Rightarrow> s)"
  have r: "fst (run e c t w) =
      \<lparr>ok = (returncode p = 0), rc = returncode p, out = strip so, err = strip se, cmd = c\<rparr>"
    using run_completed[OF p] by (simp add: or_empty_case so_def se_def)
  show "ok (fst (run e c t w)) = (returncode p = 0)"
    by (simp add: r)
  show "rc (fst (run e c t w)) = returncode p"
    by (simp add: r)
  show "cmd (fst (run e c t w)) = c"
    by (simp add: r)
  show "out (fst (run e c t w)) = strip (case stdout p of None \<Rightarrow> [] | Some s \<Rightarrow> s)"
    by (simp add: r so_def)
  show "err (fst (run e c t w)) = strip (case stderr p of None \<Rightarrow> [] | Some s \<Rightarrow> s)"
    by (simp add: r se_def)
  show "\<exists>pre suf. (case stdout p of None \<Rightarrow> [] | Some s \<Rightarrow> s) = pre @ out (fst (run e c t w)) @ suf \<and>
      list_all isspace pre \<and> list_all isspace suf"
    using strip_decomp[of so] by (simp add: r so_def)
  show "\<exists>pre suf. (case stderr p of None \<Rightarrow> [] | Some s \<Rightarrow> s) = pre @ err (fst (run e c t w)) @ suf \<and>
      list_all isspace pre \<and> list_all isspace suf"
    using strip_decomp[of se] by (simp add: r se_def)
  show "out (fst (run e c t w)) = [] \<or>
      \<not> isspace (hd (out (fst (run e c t w)))) \<and> \<not> isspace (last (out (fst (run e c t w))))"
    using strip_ends[of so] by (auto simp: r)
  show "err (fst (run e c t w)) = [] \<or>
      \<not> isspace (hd (err (fst (run e c t w)))) \<and> \<not> isspace (last (err (fst (run e c t w))))"
    using strip_ends[of se] by (auto simp: r)
qed

theorem run_outcome_by_branch_witness:
  "fst (run env_timeout ''sleep 60'' 10 w_fresh) =
     \<lparr>ok = False, rc = 1, out = [], err = ''Command timed out'', cmd = ''sleep 60''\<rparr> \<and>
   ok (fst (run env_up ''systemctl is-active ollama.service'' 10 w_fresh)) \<and>
   out (fst (run env_up ''systemctl is-active ollama.service'' 10 w_fresh)) = ''active'' \<and>
   err (fst (run env_up ''ollama list'' 20 w_fresh)) = [] \<and>
   rc (fst (run env_down ''systemctl is-active ollama.service'' 10 w_fresh)) = 3 \<and>
   \<not> ok (fst (run env_down ''systemctl is-active ollama.service'' 10 w_fresh)) \<and>
   out (fst (run env_down ''systemctl is-active ollama.service'' 10 w_fresh)) = ''inactive'' \<and>
   cmd_log (snd (run env_timeout ''sleep 60'' 10 w_fresh)) = [(''sleep 60'', 10)]"
proof -
  have 1: "subprocess_run env_timeout (cmd_log w_fresh) ''sleep 60'' 10 = Inl ''Command timed out''"
    by (simp add: env_timeout_def)
  have 2: "subprocess_run env_up (cmd_log w_fresh) ''systemctl is-active ollama.service'' 10 =
      Inr \<lparr>returncode = 0, stdout = Some ('' active'' @ [CHR 0x0A]), stderr = Some []\<rparr>"
    by (simp add: env_up_def)
  have 3: "subprocess_run env_down (cmd_log w_fresh) ''systemctl is-active ollama.service'' 10 =
      Inr \<lparr>returncode = 3, stdout = Some (''inactive'' @ [CHR 0x0A]), stderr = Some []\<rparr>"
    by (simp add: env_down_def)
  have 4: "subprocess_run env_up (cmd_log w_fresh) ''ollama list'' 20 =
      Inr \<lparr>returncode = 0, stdout = Some ''NAME ID SIZE'', stderr = None\<rparr>"
    by (simp add: env_up_def port_cmd_def)
  have s: "strip ('' active'' @ [CHR 0x0A]) = ''active''" "strip (''inactive'' @ [CHR 0x0A]) = ''inactive''"
    "strip [] = []"
    by (simp_all add: strip_def isspace_def)
  have a: "fst (run env_timeout ''sleep 60'' 10 w_fresh) =
      \<lparr>ok = False, rc = 1, out = [], err = ''Command timed out'', cmd = ''sleep 60''\<rparr>"
    using run_outcome_by_branch[where e = env_timeout and w = w_fresh and c = "''sleep 60''" and t = 10] 1
    by blast
  have l: "cmd_log (snd (run env_timeout ''sleep 60'' 10 w_fresh)) = [(''sleep 60'', 10)]"
    using run_outcome_by_branch[where e = env_timeout and w = w_fresh and c = "''sleep 60''" and t = 10]
    by (simp add: w_fresh_def)
  have "\<forall>p. subprocess_run env_up (cmd_log w_fresh) ''systemctl is-active ollama.service'' 10 = Inr p \<longrightarrow>
      ok (fst (run env_up ''systemctl is-active ollama.service'' 10 w_fresh)) = (returncode p = 0) \<and>
      out (fst (run env_up ''systemctl is-active ollama.service'' 10 w_fresh)) =
        strip (case stdout p of None \<Rightarrow> [] | Some s \<Rightarrow> s)"
    using run_outcome_by_branch[where e = env_up and w = w_fresh
        and c = "''systemctl is-active ollama.service''" and t = 10]
    by blast
  with 2 s have b: "ok (fst (run env_up ''systemctl is-active ollama.service'' 10 w_fresh)) \<and>
      out (fst (run env_up ''systemctl is-active ollama.service'' 10 w_fresh)) = ''active''"
    by simp
  have "\<forall>p. subprocess_run env_up (cmd_log w_fresh) ''ollama list'' 20 = Inr p \<longrightarrow>
      err (fst (run env_up ''ollama list'' 20 w_fresh)) =
        strip (case stderr p of None \<Rightarrow> [] | Some s \<Rightarrow> s)"
    using run_outcome_by_branch[where e = env_up and w = w_fresh and c = "''ollama list''" and t = 20]
    by blast
  with 4 s have c: "err (fst (run env_up ''ollama list'' 20 w_fresh)) = []"
    by simp
  have "\<forall>p. subprocess_run env_down (cmd_log w_fresh) ''systemctl is-active ollama.service'' 10 = Inr p \<longrightarrow>
      ok (fst (run env_down ''systemctl is-active ollama.service'' 10 w_fresh)) = (returncode p = 0) \<and>
      rc (fst (run env_down ''systemctl is-active ollama.service'' 10 w_fresh)) = returncode p \<and>
      out (fst (run env_down ''systemctl is-active ollama.service'' 10 w_fresh)) =
        strip (case stdout p of None \<Rightarrow> [] | Some s \<Rightarrow> s)"
    using run_outcome_by_branch[where e = env_down and w = w_fresh
        and c = "''systemctl is-active ollama.service''" and t = 10]
    by blast
  with 3 s have d: "rc (fst (run env_down ''systemctl is-active ollama.service'' 10 w_fresh)) = 3 \<and>
      \<not> ok (fst (run env_down ''systemctl is-active ollama.service'' 10 w_fresh)) \<and>
      out (fst (run env_down ''systemctl is-active ollama.service'' 10 w_fresh)) = ''inactive''"
    by simp
  from a b c d l show ?thesis
    by blast
qed

text \<open>
  C3 as stated fails for a binary that is missing: the shell reports it with status 127,
  \<open>subprocess.run\<close> returns, and \<open>run\<close> hands back \<open>rc = 127\<close> with the shell's
  message in \<open>err\<close>, not \<open>rc = 1\<close>.
\<close>

theorem run_missing_binary_counterexample:
  "subprocess_run (env_shell progs_none) (cmd_log w_fresh) ''/nonexistent/bin/ollama list'' 20 =
     Inr \<lparr>returncode = 127, stdout = Some [],
          stderr = Some (''/bin/sh: 1: /nonexistent/bin/ollama: not found'' @ [CHR 0x0A])\<rparr> \<and>
   fst (run (env_shell progs_none) ''/nonexistent/bin/ollama list'' 20 w_fresh) =
     \<lparr>ok = False, rc = 127, out = [], err = ''/bin/sh: 1: /nonexistent/bin/ollama: not found'',
      cmd = ''/nonexistent/bin/ollama list''\<rparr> \<and>
   rc (fst (run (env_shell progs_none) ''/nonexistent/bin/ollama list'' 20 w_fresh)) \<noteq> 1"
  by code_simp


section \<open>The port probe\<close>

lemma check_port_verdict:
  "fst (fst (check_port e w)) = str_in ''11434'' (out (fst (run e port_cmd 10 w)))"
  by (simp add: check_port_def split_beta)

lemma check_port_completed:
  "subprocess_run e (cmd_log w) port_cmd 10 = Inr p \<Longrightarrow>
   fst (fst (check_port e w)) = str_in ''11434'' (case stdout p of None \<Rightarrow> [] | Some s \<Rightarrow> s)"
  using port_digits_no_space
  by (simp add: check_port_verdict run_completed str_in_strip or_empty_case)

lemma sh_parse_port_cmd:
  "sh_parse port_cmd = Some [[[''ss'', ''-ltnp''], [''grep'', ''-E'', grep_pattern]], [[''true'']]]"
  by code_simp

lemma sh_c_port_cmd:
  "sh_c progs port_cmd =
     Some \<lparr>returncode = 0, stdout = Some (port_listing progs),
           stderr = Some (sh_err (run_simple progs [''ss'', ''-ltnp''] []) @
             sh_err (run_simple progs [''grep'', ''-E'', grep_pattern]
               (sh_out (run_simple progs [''ss'', ''-ltnp''] []))))\<rparr>"
  by (simp add: sh_c_def sh_parse_port_cmd Let_def port_listing_def run_simple_def)

text \<open>
  C5. The command of the port probe is the shell program \<open>ss -ltnp | grep -E PATTERN ||
  true\<close>. Whatever \<open>ss\<close> and \<open>grep\<close> do, or if they are missing, the shell ends it
  with status 0 and its output is the filtered listing, what \<open>grep\<close> wrote. So when the
  call returns what the shell gives, \<open>run\<close> reports a successful command, and the probe
  passes exactly when \<open>11434\<close> occurs in the filtered listing; for an empty listing the
  probe fails and the command is still reported successful. In general the verdict is the
  substring test on the trimmed output that \<open>run\<close> hands over, which is the test on the
  captured standard output; the exit code is not read (two calls that capture the same
  output get the same verdict), and a call that raises fails the probe.
\<close>

theorem check_port_substring_only:
  "sh_parse port_cmd = Some [[[''ss'', ''-ltnp''], [''grep'', ''-E'', grep_pattern]], [[''true'']]] \<and>
   (\<forall>progs. \<exists>p. sh_c progs port_cmd = Some p \<and> returncode p = 0 \<and>
      stdout p = Some (port_listing progs)) \<and>
   (\<forall>progs p. sh_c progs port_cmd = Some p \<and> subprocess_run e (cmd_log w) port_cmd 10 = Inr p \<longrightarrow>
      ok (fst (run e port_cmd 10 w)) \<and> rc (fst (run e port_cmd 10 w)) = 0 \<and>
      fst (fst (check_port e w)) = str_in ''11434'' (port_listing progs) \<and>
      (port_listing progs = [] \<longrightarrow> \<not> fst (fst (check_port e w)))) \<and>
   fst (fst (check_port e w)) = str_in ''11434'' (out (fst (run e port_cmd 10 w))) \<and>
   (\<forall>msg. subprocess_run e (cmd_log w) port_cmd 10 = Inl msg \<longrightarrow> \<not> fst (fst (check_port e w))) \<and>
   (\<forall>p. subprocess_run e (cmd_log w) port_cmd 10 = Inr p \<longrightarrow>
      fst (fst (check_port e w)) = str_in ''11434'' (case stdout p of None \<Rightarrow> [] | Some s \<Rightarrow> s) \<and>
      (\<forall>e' w' p'. subprocess_run e' (cmd_log w') port_cmd 10 = Inr p' \<and> stdout p' = stdout p
         \<longrightarrow> fst (fst (check_port e' w')) = fst (fst (check_port e w))))"
proof -
  have a: "\<forall>progs. \<exists>p. sh_c progs port_cmd = Some p \<and> returncode p = 0 \<and>
      stdout p = Some (port_listing progs)"
    by (simp add: sh_c_port_cmd)
  have b: "\<forall>progs p. sh_c progs port_cmd = Some p \<and> subprocess_run e (cmd_log w) port_cmd 10 = Inr p \<longrightarrow>
      ok (fst (run e port_cmd 10 w)) \<and> rc (fst (run e port_cmd 10 w)) = 0 \<and>
      fst (fst (check_port e w)) = str_in ''11434'' (port_listing progs) \<and>
      (port_listing progs = [] \<longrightarrow> \<not> fst (fst (check_port e w)))"
  proof (intro allI impI)
    fix progs p
    assume h: "sh_c progs port_cmd = Some p \<and> subprocess_run e (cmd_log w) port_cmd 10 = Inr p"
    then have p: "returncode p = 0" "stdout p = Some (port_listing progs)"
      by (auto simp: sh_c_port_cmd)
    have v: "fst (fst (check_port e w)) = str_in ''11434'' (port_listing progs)"
      using check_port_completed[of e w p] h p by simp
    have "ok (fst (run e port_cmd 10 w)) \<and> rc (fst (run e port_cmd 10 w)) = 0"
      using h p by (simp add: run_completed)
    moreover have "port_listing progs = [] \<longrightarrow> \<not> fst (fst (check_port e w))"
      using v by simp
    ultimately show "ok (fst (run e port_cmd 10 w)) \<and> rc (fst (run e port_cmd 10 w)) = 0 \<and>
        fst (fst (check_port e w)) = str_in ''11434'' (port_listing progs) \<and>
        (port_listing progs = [] \<longrightarrow> \<not> fst (fst (check_port e w)))"
      using v by blast
  qed
  have c: "\<forall>msg. subprocess_run e (cmd_log w) port_cmd 10 = Inl msg \<longrightarrow> \<not> fst (fst (check_port e w))"
    by (simp add: check_port_verdict run_raised)
  have d: "\<forall>p. subprocess_run e (cmd_log w) port_cmd 10 = Inr p \<longrightarrow>
      fst (fst (check_port e w)) = str_in ''11434'' (case stdout p of None \<Rightarrow> [] | Some s \<Rightarrow> s) \<and>
      (\<forall>e' w' p'. subprocess_run e' (cmd_log w') port_cmd 10 = Inr p' \<and> stdout p' = stdout p
         \<longrightarrow> fst (fst (check_port e' w')) = fst (fst (check_port e w)))"
  proof (intro allI impI conjI)
    fix p assume p: "subprocess_run e (cmd_log w) port_cmd 10 = Inr p"
    show 1: "fst (fst (check_port e w)) = str_in ''11434'' (case stdout p of None \<Rightarrow> [] | Some s \<Rightarrow> s)"
      using p by (rule check_port_completed)
    show "fst (fst (check_port e' w')) = fst (fst (check_port e w))"
      if "subprocess_run e' (cmd_log w') port_cmd 10 = Inr p' \<and> stdout p' = stdout p"
      for e' w' p'
      using that check_port_completed[of e' w' p'] 1 by simp
  qed
  show ?thesis
    using sh_parse_port_cmd a b c d check_port_verdict by blast
qed

theorem check_port_substring_only_witness:
  "fst (fst (check_port (env_shell progs_listening) w_fresh)) \<and>
   ok (fst (run (env_shell progs_listening) port_cmd 10 w_fresh)) \<and>
   port_listing progs_idle = [] \<and>
   \<not> fst (fst (check_port (env_shell progs_idle) w_fresh)) \<and>
   ok (fst (run (env_shell progs_idle) port_cmd 10 w_fresh)) \<and>
   \<not> fst (fst (check_port (env_shell progs_none) w_fresh)) \<and>
   rc (fst (run (env_shell progs_none) port_cmd 10 w_fresh)) = 0 \<and>
   fst (fst (check_port env_port_rc2 w_fresh)) \<and>
   fst (fst (check_port env_port_rc2 w_fresh)) = fst (fst (check_port env_up w_fresh)) \<and>
   \<not> fst (fst (check_port env_timeout w_fresh))"
proof -
  have l: "port_listing progs_listening = ''LISTEN 0 4096 127.0.0.1:11434 0.0.0.0:*'' @ [CHR 0x0A]"
    "port_listing progs_idle = []" "port_listing progs_none = []"
    by code_simp+
  have s: "str_in ''11434'' (''LISTEN 0 4096 127.0.0.1:11434 0.0.0.0:*'' @ [CHR 0x0A])"
    "str_in ''11434'' ''LISTEN 0 4096 127.0.0.1:11434 0.0.0.0:*''"
    "str_in ''11434'' ''LISTEN 0 4096 *:11434 *:*''"
    by code_simp+
  have sh: "\<exists>p. sh_c progs port_cmd = Some p \<and>
      subprocess_run (env_shell progs) (cmd_log w_fresh) port_cmd 10 = Inr p" for progs
  proof -
    from check_port_substring_only[of env_up w_fresh]
    obtain p where "sh_c progs port_cmd = Some p"
      by blast
    then show ?thesis
      by (simp add: env_shell_def)
  qed
  have t: "ok (fst (run (env_shell progs) port_cmd 10 w_fresh)) \<and>
      rc (fst (run (env_shell progs) port_cmd 10 w_fresh)) = 0 \<and>
      fst (fst (check_port (env_shell progs) w_fresh)) = str_in ''11434'' (port_listing progs)"
    for progs
    using check_port_substring_only[of "env_shell progs" w_fresh] sh[of progs] by blast
  have 1: "subprocess_run env_up (cmd_log w_fresh) port_cmd 10 =
      Inr \<lparr>returncode = 0, stdout = Some ''LISTEN 0 4096 127.0.0.1:11434 0.0.0.0:*'',
           stderr = Some []\<rparr>"
    by (simp add: env_up_def port_cmd_def)
  have 2: "subprocess_run env_port_rc2 (cmd_log w_fresh) port_cmd 10 =
      Inr \<lparr>returncode = 2, stdout = Some ''LISTEN 0 4096 *:11434 *:*'', stderr = Some []\<rparr>"
    by (simp add: env_port_rc2_def)
  have 4: "subprocess_run env_timeout (cmd_log w_fresh) port_cmd 10 = Inl ''Command timed out''"
    by (simp add: env_timeout_def)
  have "\<forall>p. subprocess_run env_up (cmd_log w_fresh) port_cmd 10 = Inr p \<longrightarrow>
      fst (fst (check_port env_up w_fresh)) =
        str_in ''11434'' (case stdout p of None \<Rightarrow> [] | Some s \<Rightarrow> s)"
    using check_port_substring_only[of env_up w_fresh] by blast
  with 1 s have u: "fst (fst (check_port env_up w_fresh))"
    by simp
  have "\<forall>p. subprocess_run env_port_rc2 (cmd_log w_fresh) port_cmd 10 = Inr p \<longrightarrow>
      fst (fst (check_port env_port_rc2 w_fresh)) =
        str_in ''11434'' (case stdout p of None \<Rightarrow> [] | Some s \<Rightarrow> s)"
    using check_port_substring_only[of env_port_rc2 w_fresh] by blast
  with 2 s have r: "fst (fst (check_port env_port_rc2 w_fresh))"
    by simp
  have "\<forall>msg. subprocess_run env_timeout (cmd_log w_fresh) port_cmd 10 = Inl msg \<longrightarrow>
      \<not> fst (fst (check_port env_timeout w_fresh))"
    using check_port_substring_only[of env_timeout w_fresh] by blast
  with 4 have x: "\<not> fst (fst (check_port env_timeout w_fresh))"
    by simp
  show ?thesis
    using t[of progs_listening] t[of progs_idle] t[of progs_none] l s u r x by simp
qed


section \<open>The retention pruner, step by step\<close>
















































section \<open>Bundles that hold directories\<close>






section \<open>The file system primitives\<close>

lemma is_dir_map: "is_dir fs p \<longleftrightarrow> map_of fs p = Some Directory"
  by (auto simp: is_dir_def split: option.splits entry.splits)

lemma is_file_map: "is_file fs p \<longleftrightarrow> (\<exists>c. map_of fs p = Some (RegFile c))"
  by (auto simp: is_file_def split: option.splits entry.splits)

lemma wf_fs_map:
  "wf_fs fs \<longleftrightarrow>
     distinct (map fst fs) \<and> map_of fs [] = Some Directory \<and>
     (\<forall>q. q \<noteq> [] \<longrightarrow> map_of fs q \<noteq> None \<longrightarrow> map_of fs (butlast q) = Some Directory)"
proof -
  have "list_all (\<lambda>q. q = [] \<or> is_dir fs (butlast q)) (map fst fs) \<longleftrightarrow>
      (\<forall>q. q \<noteq> [] \<longrightarrow> map_of fs q \<noteq> None \<longrightarrow> map_of fs (butlast q) = Some Directory)"
    by (auto simp: list_all_iff is_dir_map map_of_eq_None_iff)
  then show ?thesis
    by (simp add: wf_fs_def is_dir_map)
qed

lemma wf_update:
  assumes wf: "wf_fs fs" and p: "p \<noteq> []" "is_dir fs (butlast p)"
    and e: "e = Directory \<or> \<not> is_dir fs p"
  shows "wf_fs (AList.update p e fs)"
proof -
  have d: "distinct (map fst (AList.update p e fs))"
    using wf by (simp add: wf_fs_map distinct_update)
  have m: "map_of (AList.update p e fs) = (map_of fs)(p \<mapsto> e)"
    by (rule update_conv')
  have bp: "butlast p \<noteq> p"
    using p(1) by (metis append_butlast_last_id append_self_conv not_Cons_self2)
  have r: "map_of (AList.update p e fs) [] = Some Directory"
    using wf p(1) by (simp add: m wf_fs_map)
  have c: "map_of (AList.update p e fs) (butlast q) = Some Directory"
    if "q \<noteq> []" "map_of (AList.update p e fs) q \<noteq> None" for q
  proof (cases "q = p")
    case True
    then show ?thesis using p bp by (simp add: m is_dir_map)
  next
    case False
    then have "map_of fs q \<noteq> None" using that(2) by (simp add: m)
    then have old: "map_of fs (butlast q) = Some Directory"
      using wf that(1) by (simp add: wf_fs_map)
    show ?thesis
    proof (cases "butlast q = p")
      case True
      then have "is_dir fs p" using old by (simp add: is_dir_map)
      with e have "e = Directory" by simp
      then show ?thesis using True by (simp add: update_conv')
    next
      case False
      then show ?thesis using old by (simp add: update_conv')
    qed
  qed
  show ?thesis
    unfolding wf_fs_map using d r c by blast
qed

lemma as_dir_None: "as_dir fs d = None \<longleftrightarrow> is_dir fs d"
  by (auto simp: as_dir_def is_dir_map split: option.splits entry.splits)

lemma append_text_ok:
  assumes "is_dir fs (butlast p)" "\<not> is_dir fs p"
  shows "append_text fs p s = Inr (AList.update p (RegFile (read_text fs p @ s)) fs)"
proof (cases "map_of fs p")
  case None
  then show ?thesis
    using assms by (simp add: append_text_def read_text_def as_dir_None[THEN iffD2])
next
  case (Some e)
  then show ?thesis
    using assms by (cases e) (simp_all add: append_text_def read_text_def is_dir_map)
qed

lemma write_text_ok:
  assumes "is_dir fs (butlast p)" "\<not> is_dir fs p"
  shows "write_text fs p s = Inr (AList.update p (RegFile s) fs)"
proof (cases "map_of fs p")
  case None
  then show ?thesis
    using assms by (simp add: write_text_def as_dir_None[THEN iffD2])
next
  case (Some e)
  then show ?thesis
    using assms by (cases e) (simp_all add: write_text_def is_dir_map)
qed

lemma append_text_missing_parent:
  assumes "map_of fs p = None" "\<not> is_dir fs (butlast p)"
  shows "\<exists>x. append_text fs p s = Inl x"
proof -
  obtain x where "as_dir fs (butlast p) = Some x"
    using assms(2) as_dir_None[of fs "butlast p"] by (cases "as_dir fs (butlast p)") auto
  then show ?thesis
    using assms(1) by (simp add: append_text_def)
qed


lemma wf_prefix_exists:
  "wf_fs fs \<Longrightarrow> map_of fs p \<noteq> None \<Longrightarrow> prefix q p \<Longrightarrow> map_of fs q \<noteq> None"
proof (induction p rule: rev_induct)
  case Nil
  then show ?case by simp
next
  case (snoc x ps)
  have par: "map_of fs ps = Some Directory"
    using snoc.prems(1,2) wf_fs_map[of fs] by (metis butlast_snoc snoc_eq_iff_butlast)
  show ?case
  proof (cases "q = ps @ [x]")
    case True
    then show ?thesis using snoc.prems by simp
  next
    case False
    then have "prefix q ps" using snoc.prems(3) by (simp add: prefix_snoc)
    then show ?thesis using snoc.IH snoc.prems(1) par by simp
  qed
qed

lemma os_mkdir_new:
  "is_dir fs (butlast p) \<Longrightarrow> p \<noteq> [] \<Longrightarrow> map_of fs p = None \<Longrightarrow>
   os_mkdir fs p = Inr (AList.update p Directory fs)"
  by (simp add: os_mkdir_def as_dir_None[THEN iffD2])

lemma os_mkdir_exists:
  assumes "wf_fs fs" "map_of fs p \<noteq> None"
  shows "os_mkdir fs p = Inl FileExistsError"
proof (cases "p = []")
  case True
  then show ?thesis by (simp add: os_mkdir_def)
next
  case False
  then have "is_dir fs (butlast p)"
    using assms by (simp add: wf_fs_map is_dir_map)
  then show ?thesis
    using False assms(2) by (auto simp: os_mkdir_def as_dir_None[THEN iffD2])
qed

lemma os_mkdir_no_parent:
  assumes "p \<noteq> []" "map_of fs (butlast p) = None" "\<not> list_ex (is_file fs) (prefixes (butlast p))"
  shows "os_mkdir fs p = Inl FileNotFoundError"
  using assms by (simp add: os_mkdir_def as_dir_def)

lemma mkdir_parents_ok:
  assumes "wf_fs fs" "\<forall>q. prefix q p \<longrightarrow> \<not> is_file fs q"
  shows "\<exists>fs'. mkdir_parents fs p = Inr fs' \<and> wf_fs fs' \<and>
     (\<forall>q. map_of fs' q = (if prefix q p \<and> map_of fs q = None then Some Directory else map_of fs q))"
  using assms
proof (induction p rule: rev_induct)
  case Nil
  have "is_dir fs []" using Nil.prems(1) by (simp add: wf_fs_map is_dir_map)
  then have "mkdir_parents fs [] = Inr fs"
    by (simp add: mkdir_parents.simps[of fs "[]"] os_mkdir_def)
  moreover have "map_of fs [] \<noteq> None"
    using Nil.prems(1) by (simp add: wf_fs_map)
  ultimately show ?case
    using Nil.prems(1) by auto
next
  case (snoc x ps)
  let ?p = "ps @ [x]"
  have nf: "\<not> is_file fs q" if "prefix q ?p" for q
    using snoc.prems(2) that by blast
  show ?case
  proof (cases "map_of fs ?p = None")
    case False
    then have ex: "os_mkdir fs ?p = Inl FileExistsError"
      using snoc.prems(1) by (intro os_mkdir_exists) auto
    have "\<not> is_file fs ?p" using nf by simp
    then have dir: "is_dir fs ?p"
      using False by (cases "map_of fs ?p") (auto simp: is_dir_map is_file_map, metis entry.exhaust)
    have r: "mkdir_parents fs ?p = Inr fs"
      by (simp add: mkdir_parents.simps[of fs ?p] ex dir)
    have "map_of fs q \<noteq> None" if "prefix q ?p" for q
      using snoc.prems(1) False that by (rule wf_prefix_exists)
    then show ?thesis
      using r snoc.prems(1) by auto
  next
    case None: True
    show ?thesis
    proof (cases "is_dir fs ps")
      case True
      have mk: "os_mkdir fs ?p = Inr (AList.update ?p Directory fs)"
        using True None by (intro os_mkdir_new) simp_all
      have r: "mkdir_parents fs ?p = Inr (AList.update ?p Directory fs)"
        by (simp add: mkdir_parents.simps[of fs ?p] mk)
      have wf': "wf_fs (AList.update ?p Directory fs)"
        using snoc.prems(1) True by (intro wf_update) simp_all
      have pre: "map_of fs q \<noteq> None" if "prefix q ps" for q
        using snoc.prems(1) _ that by (rule wf_prefix_exists) (use True in \<open>simp add: is_dir_map\<close>)
      have "map_of (AList.update ?p Directory fs) q =
          (if prefix q ?p \<and> map_of fs q = None then Some Directory else map_of fs q)" for q
        using pre[of q] None by (auto simp: update_conv' prefix_snoc)
      then show ?thesis
        using r wf' by blast
    next
      case False
      have "\<not> is_file fs ps" using nf by simp
      then have pn: "map_of fs ps = None"
        using False by (cases "map_of fs ps") (auto simp: is_dir_map is_file_map, metis entry.exhaust)
      have "\<not> list_ex (is_file fs) (prefixes ps)"
        using nf by (auto simp: list_ex_iff)
      then have nf1: "os_mkdir fs ?p = Inl FileNotFoundError"
        using pn by (intro os_mkdir_no_parent) simp_all
      have "\<forall>q. prefix q ps \<longrightarrow> \<not> is_file fs q"
        using nf by simp
      then obtain fs1 where 1: "mkdir_parents fs ps = Inr fs1" "wf_fs fs1"
        "\<forall>q. map_of fs1 q = (if prefix q ps \<and> map_of fs q = None then Some Directory else map_of fs q)"
        using snoc.IH[OF snoc.prems(1)] by blast
      have d1: "is_dir fs1 ps"
        using 1(3) pn by (simp add: is_dir_map)
      have n1: "map_of fs1 ?p = None"
        using 1(3) None by simp
      have mk: "os_mkdir fs1 ?p = Inr (AList.update ?p Directory fs1)"
        using d1 n1 by (intro os_mkdir_new) simp_all
      have r: "mkdir_parents fs ?p = Inr (AList.update ?p Directory fs1)"
        by (simp add: mkdir_parents.simps[of fs ?p] nf1 1(1) mkdir_exist_ok_def mk)
      have wf': "wf_fs (AList.update ?p Directory fs1)"
        using 1(2) d1 by (intro wf_update) simp_all
      have "map_of (AList.update ?p Directory fs1) q =
          (if prefix q ?p \<and> map_of fs q = None then Some Directory else map_of fs q)" for q
        using 1(3) None by (auto simp: update_conv' prefix_snoc)
      then show ?thesis
        using r wf' by blast
    qed
  qed
qed


lemma prefix_LOG_DIR: "prefix q LOG_DIR \<longleftrightarrow> q = [] \<or> q = AGENT_DIR \<or> q = LOG_DIR"
  by (auto simp: LOG_DIR_def AGENT_DIR_def prefix_Cons)

lemma prefix_EVIDENCE_DIR:
  "prefix q EVIDENCE_DIR \<longleftrightarrow> q = [] \<or> q = AGENT_DIR \<or> q = LOG_DIR \<or> q = EVIDENCE_DIR"
  by (auto simp: EVIDENCE_DIR_def LOG_DIR_def AGENT_DIR_def prefix_Cons)

lemma wf_root: "wf_fs fs \<Longrightarrow> map_of fs [] = Some Directory"
  by (simp add: wf_fs_map)

lemma ensure_dirs_ok:
  assumes wf: "wf_fs fs"
    and nf: "\<not> is_file fs AGENT_DIR" "\<not> is_file fs LOG_DIR" "\<not> is_file fs EVIDENCE_DIR"
  shows "\<exists>fs'. ensure_dirs fs = Inr fs' \<and> wf_fs fs' \<and>
     (\<forall>q. map_of fs' q =
        (if (q = AGENT_DIR \<or> q = LOG_DIR \<or> q = EVIDENCE_DIR) \<and> map_of fs q = None
         then Some Directory else map_of fs q))"
proof -
  have r: "\<not> is_file fs []" "map_of fs [] \<noteq> None"
    using wf by (simp_all add: wf_fs_map is_file_map)
  have "\<forall>q. prefix q LOG_DIR \<longrightarrow> \<not> is_file fs q"
    using nf r by (auto simp: prefix_LOG_DIR)
  then obtain fs1 where 1: "mkdir_parents fs LOG_DIR = Inr fs1" "wf_fs fs1"
    "\<forall>q. map_of fs1 q = (if prefix q LOG_DIR \<and> map_of fs q = None then Some Directory else map_of fs q)"
    using mkdir_parents_ok[OF wf] by blast
  have "\<forall>q. prefix q EVIDENCE_DIR \<longrightarrow> \<not> is_file fs1 q"
    using nf r 1(3) by (auto simp: prefix_EVIDENCE_DIR is_file_map)
  then obtain fs2 where 2: "mkdir_parents fs1 EVIDENCE_DIR = Inr fs2" "wf_fs fs2"
    "\<forall>q. map_of fs2 q = (if prefix q EVIDENCE_DIR \<and> map_of fs1 q = None then Some Directory else map_of fs1 q)"
    using mkdir_parents_ok[OF 1(2)] by blast
  have "map_of fs2 q =
      (if (q = AGENT_DIR \<or> q = LOG_DIR \<or> q = EVIDENCE_DIR) \<and> map_of fs q = None
       then Some Directory else map_of fs q)" for q
    using 1(3) 2(3) r by (auto simp: prefix_LOG_DIR prefix_EVIDENCE_DIR)
  then show ?thesis
    using 1(1) 2(1,2) by (simp add: ensure_dirs_def)
qed

lemma wf_missing_child:
  "wf_fs fs \<Longrightarrow> map_of fs (butlast q) = None \<Longrightarrow> q \<noteq> [] \<Longrightarrow> map_of fs q = None"
  using wf_fs_map[of fs] by (cases "map_of fs q") auto

lemma write_event_ok:
  "is_dir fs LOG_DIR \<Longrightarrow> \<not> is_dir fs EVENT_LOG \<Longrightarrow>
   write_event ev fs =
     Inr (AList.update EVENT_LOG (RegFile (read_text fs EVENT_LOG @ dumps ev @ [CHR 0x0A])) fs)"
  unfolding write_event_def by (rule append_text_ok) (simp_all add: EVENT_LOG_def)

text \<open>
  C9, as the code has it. \<open>write_event\<close> opens the log for appending: when the log
  directory exists it creates the file if it is absent and appends the one line of the
  event. It creates no directory: when the file is absent and its directory is not a
  directory the call raises, with \<open>FileNotFoundError\<close> when the directory is missing,
  and nothing is written. The directories are made by \<open>ensure_dirs\<close>, which \<open>main\<close>
  calls first: from a state without the log directory \<open>ensure_dirs\<close> succeeds, and
  after it \<open>write_event\<close> creates the file with the line.
\<close>

theorem write_event_needs_log_dir:
  "(is_dir fs LOG_DIR \<and> \<not> is_dir fs EVENT_LOG \<longrightarrow>
      write_event ev fs =
        Inr (AList.update EVENT_LOG (RegFile (read_text fs EVENT_LOG @ dumps ev @ [CHR 0x0A])) fs)) \<and>
   (map_of fs EVENT_LOG = None \<and> \<not> is_dir fs LOG_DIR \<longrightarrow> (\<exists>x. write_event ev fs = Inl x)) \<and>
   (wf_fs fs \<and> map_of fs LOG_DIR = None \<and> \<not> is_file fs AGENT_DIR \<and> map_of fs EVIDENCE_DIR = None \<longrightarrow>
      write_event ev fs = Inl FileNotFoundError \<and>
      (\<exists>fs1. ensure_dirs fs = Inr fs1 \<and> is_dir fs1 LOG_DIR \<and> map_of fs1 EVENT_LOG = None \<and>
         write_event ev fs1 = Inr (AList.update EVENT_LOG (RegFile (dumps ev @ [CHR 0x0A])) fs1)))"
proof (intro conjI impI)
  assume "is_dir fs LOG_DIR \<and> \<not> is_dir fs EVENT_LOG"
  then show "write_event ev fs =
      Inr (AList.update EVENT_LOG (RegFile (read_text fs EVENT_LOG @ dumps ev @ [CHR 0x0A])) fs)"
    by (simp add: write_event_ok)
next
  assume "map_of fs EVENT_LOG = None \<and> \<not> is_dir fs LOG_DIR"
  then show "\<exists>x. write_event ev fs = Inl x"
    unfolding write_event_def by (intro append_text_missing_parent) (simp_all add: EVENT_LOG_def)
next
  assume h: "wf_fs fs \<and> map_of fs LOG_DIR = None \<and> \<not> is_file fs AGENT_DIR \<and> map_of fs EVIDENCE_DIR = None"
  then have wf: "wf_fs fs" by simp
  have el: "map_of fs EVENT_LOG = None"
    using h by (intro wf_missing_child[of fs EVENT_LOG]) (simp_all add: EVENT_LOG_def)
  have "\<not> is_file fs []" using wf by (simp add: wf_fs_map is_file_map)
  then have "\<not> list_ex (is_file fs) (prefixes LOG_DIR)"
    using h by (auto simp: list_ex_iff prefix_LOG_DIR is_file_map)
  then have "as_dir fs LOG_DIR = Some FileNotFoundError"
    using h by (simp add: as_dir_def)
  then show "write_event ev fs = Inl FileNotFoundError"
    using el by (simp add: write_event_def append_text_def EVENT_LOG_def)
  have "\<not> is_file fs LOG_DIR" "\<not> is_file fs EVIDENCE_DIR" "\<not> is_file fs AGENT_DIR"
    using h by (simp_all add: is_file_map)
  then obtain fs1 where 1: "ensure_dirs fs = Inr fs1" "wf_fs fs1"
    "\<forall>q. map_of fs1 q =
        (if (q = AGENT_DIR \<or> q = LOG_DIR \<or> q = EVIDENCE_DIR) \<and> map_of fs q = None
         then Some Directory else map_of fs q)"
    using ensure_dirs_ok[OF wf] by blast
  have d: "is_dir fs1 LOG_DIR"
    using 1(3) h by (simp add: is_dir_map)
  have n: "map_of fs1 EVENT_LOG = None"
    using 1(3) el by (simp add: EVENT_LOG_def EVIDENCE_DIR_def LOG_DIR_def AGENT_DIR_def)
  then have "read_text fs1 EVENT_LOG = []" "\<not> is_dir fs1 EVENT_LOG"
    by (simp_all add: read_text_def is_dir_map)
  then have "write_event ev fs1 = Inr (AList.update EVENT_LOG (RegFile (dumps ev @ [CHR 0x0A])) fs1)"
    using write_event_ok[OF d, of ev] by simp
  then show "\<exists>fs1. ensure_dirs fs = Inr fs1 \<and> is_dir fs1 LOG_DIR \<and> map_of fs1 EVENT_LOG = None \<and>
      write_event ev fs1 = Inr (AList.update EVENT_LOG (RegFile (dumps ev @ [CHR 0x0A])) fs1)"
    using 1(1) d n by blast
qed

theorem write_event_needs_log_dir_witness:
  "wf_fs (files w_fresh) \<and> map_of (files w_fresh) LOG_DIR = None \<and>
   write_event sample_event (files w_fresh) = Inl FileNotFoundError \<and>
   (\<exists>fs1 fs2. ensure_dirs (files w_fresh) = Inr fs1 \<and> write_event sample_event fs1 = Inr fs2 \<and>
      read_text fs2 EVENT_LOG = sample_line) \<and>
   is_dir fs_flat LOG_DIR \<and>
   (\<exists>fs2. write_event sample_event fs_flat = Inr fs2 \<and> read_text fs2 EVENT_LOG = sample_line)"
proof -
  have h: "wf_fs (files w_fresh)" "map_of (files w_fresh) LOG_DIR = None"
    "\<not> is_file (files w_fresh) AGENT_DIR" "map_of (files w_fresh) EVIDENCE_DIR = None"
    "is_dir fs_flat LOG_DIR" "\<not> is_dir fs_flat EVENT_LOG" "read_text fs_flat EVENT_LOG = []"
    by code_simp+
  have l: "dumps sample_event @ [CHR 0x0A] = sample_line"
    by code_simp
  from write_event_needs_log_dir[of "files w_fresh" sample_event] h
  obtain fs1 where 1: "write_event sample_event (files w_fresh) = Inl FileNotFoundError"
    "ensure_dirs (files w_fresh) = Inr fs1"
    "write_event sample_event fs1 = Inr (AList.update EVENT_LOG (RegFile (dumps sample_event @ [CHR 0x0A])) fs1)"
    by blast
  have 2: "read_text (AList.update EVENT_LOG (RegFile sample_line) fs) EVENT_LOG = sample_line" for fs
    by (simp add: read_text_def update_conv')
  have 3: "write_event sample_event fs_flat =
      Inr (AList.update EVENT_LOG (RegFile (dumps sample_event @ [CHR 0x0A])) fs_flat)"
    using write_event_needs_log_dir[of fs_flat sample_event] h by simp
  show ?thesis
    using h 1 2 3 unfolding l by blast
qed

text \<open>
  C9 as stated fails in a fresh home directory: neither the log nor its directory exists,
  and \<open>write_event\<close> raises \<open>FileNotFoundError\<close>.
\<close>

theorem write_event_missing_dir_counterexample:
  "map_of (files w_fresh) LOG_DIR = None \<and> map_of (files w_fresh) EVENT_LOG = None \<and>
   write_event sample_event (files w_fresh) = Inl FileNotFoundError"
  by code_simp

end
